theory Spec2Isabelle
  imports Main "HOL-Library.Char_ord" "HOL-Library.List_Lexorder" "HOL-Library.Multiset"
begin

section \<open>Byte strings and the helpers of Go's strings package\<close>

text \<open>
  Go's \<^verbatim>\<open>string\<close> and \<^verbatim>\<open>[]byte\<close> are byte sequences; both are modelled as
  \<^typ>\<open>string\<close> (a list of 8-bit characters), and \<^verbatim>\<open>len\<close> is \<^const>\<open>length\<close>.
  The library functions below follow the documented behaviour of the Go standard library
  on bytes. \<^verbatim>\<open>strings.ToLower\<close> is modelled on ASCII letters (Go also folds letters
  outside ASCII; content types, header names and field names are ASCII in practice).
\<close>

definition upperLetters :: string where "upperLetters = ''ABCDEFGHIJKLMNOPQRSTUVWXYZ''"
definition lowerLetters :: string where "lowerLetters = ''abcdefghijklmnopqrstuvwxyz''"

definition toLowerChar :: "char \<Rightarrow> char" where
  "toLowerChar c = (case map_of (zip upperLetters lowerLetters) c of None \<Rightarrow> c | Some l \<Rightarrow> l)"

definition toUpperChar :: "char \<Rightarrow> char" where
  "toUpperChar c = (case map_of (zip lowerLetters upperLetters) c of None \<Rightarrow> c | Some u \<Rightarrow> u)"

definition toLower :: "string \<Rightarrow> string" where
  "toLower s = map toLowerChar s"

fun hasPrefix :: "string \<Rightarrow> string \<Rightarrow> bool" where
  "hasPrefix s [] = True"
| "hasPrefix [] (p # ps) = False"
| "hasPrefix (c # cs) (p # ps) = (c = p \<and> hasPrefix cs ps)"

definition hasSuffix :: "string \<Rightarrow> string \<Rightarrow> bool" where
  "hasSuffix s suf = hasPrefix (rev s) (rev suf)"

text \<open>\<^verbatim>\<open>strings.Index\<close>: the offset of the first occurrence, \<^verbatim>\<open>-1\<close> (here
  \<^const>\<open>None\<close>) when there is none.\<close>

fun index :: "string \<Rightarrow> string \<Rightarrow> nat option" where
  "index [] sub = (if sub = [] then Some 0 else None)"
| "index (c # cs) sub =
     (if hasPrefix (c # cs) sub then Some 0
      else case index cs sub of None \<Rightarrow> None | Some i \<Rightarrow> Some (Suc i))"

definition contains :: "string \<Rightarrow> string \<Rightarrow> bool" where
  "contains s sub = (index s sub \<noteq> None)"


text \<open>Definitions that the simplifier unfolds to evaluate the model on a concrete input.\<close>

named_theorems ev

section \<open>Configuration\<close>

text \<open>
  The patterns of \<^verbatim>\<open>SensitivePatterns\<close> are values of Go's \<^verbatim>\<open>regexp\<close> package. The
  fragment of the syntax that the repository uses is a datatype: literals, character
  classes with a repetition count (\<^verbatim>\<open>[a-z]{2,}\<close>; the bounds of \<^verbatim>\<open>x\<close>, \<^verbatim>\<open>x*\<close>,
  \<^verbatim>\<open>x+\<close>, \<^verbatim>\<open>x?\<close> are (1,1), (0,-), (1,-), (0,1)), sequence, alternation, the greedy
  option, numbered capture groups and the word boundary \<^verbatim>\<open>\b\<close>. A pattern carries the
  flag \<^verbatim>\<open>(?i)\<close> of its source text.
\<close>

datatype regex =
    Lit string
  | Cls bool "(char \<times> char) list" nat "nat option"
  | Seq regex regex
  | Alt regex regex
  | Opt regex
  | Grp nat regex
  | WordB

record pattern =
  foldCase :: bool
  expr :: regex

text \<open>\<^verbatim>\<open>type BodyAction string\<close> and \<^verbatim>\<open>type HeaderMaskMode string\<close> with their constants.\<close>

type_synonym BodyAction = string
type_synonym HeaderMaskMode = string

definition BodyActionSkip :: BodyAction where "BodyActionSkip = ''skip''"
definition BodyActionTruncate :: BodyAction where "BodyActionTruncate = ''truncate''"
definition BodyActionSummarize :: BodyAction where "BodyActionSummarize = ''summarize''"
definition BodyActionSanitize :: BodyAction where "BodyActionSanitize = ''sanitize''"

definition HeaderMaskPartial :: HeaderMaskMode where "HeaderMaskPartial = ''partial''"

record BodyProcessingRule =
  Condition :: "string \<Rightarrow> string \<Rightarrow> int \<Rightarrow> bool"
  Action :: BodyAction
  Message :: string

record SanitizerConfig =
  SensitiveFields :: "string list"
  SensitivePatterns :: "pattern list"
  Mask :: string
  MaxBodySize :: int
  BodyRules :: "BodyProcessingRule list"
  HeaderMaskMode :: HeaderMaskMode
  SensitiveHeaders :: "string list"

section \<open>The pattern engine (Go's regexp package)\<close>

text \<open>
  Go's \<^verbatim>\<open>regexp\<close> returns the leftmost match and, among the matches that start there,
  the one a backtracking search finds first (an earlier alternative first, a greedy
  repetition as long as possible first). \<open>rmatch\<close> lists the states after every way of
  matching a pattern at the current position in that order of preference, so the head of
  the list is the match that Go reports. A state holds the character before the position
  (for \<^verbatim>\<open>\b\<close>), the text from the position on, and the capture groups closed so far.
  Under \<^verbatim>\<open>(?i)\<close> letters are compared on ASCII case folding.
\<close>

record mstate =
  mprev :: "char option"
  mrest :: string
  mcaps :: "(nat \<times> string) list"

definition isWordChar :: "char \<Rightarrow> bool" where
  "isWordChar c = ((CHR ''0'' \<le> c \<and> c \<le> CHR ''9'') \<or> (CHR ''A'' \<le> c \<and> c \<le> CHR ''Z'')
      \<or> (CHR ''a'' \<le> c \<and> c \<le> CHR ''z'') \<or> c = CHR ''_'')"

fun inRanges :: "(char \<times> char) list \<Rightarrow> char \<Rightarrow> bool" where
  "inRanges [] c = False"
| "inRanges ((lo, hi) # rs) c = ((lo \<le> c \<and> c \<le> hi) \<or> inRanges rs c)"

definition clsMatch :: "bool \<Rightarrow> bool \<Rightarrow> (char \<times> char) list \<Rightarrow> char \<Rightarrow> bool" where
  "clsMatch ci neg rs c =
     ((inRanges rs c \<or> (ci \<and> (inRanges rs (toLowerChar c) \<or> inRanges rs (toUpperChar c)))) \<noteq> neg)"

fun litMatch :: "bool \<Rightarrow> string \<Rightarrow> string \<Rightarrow> string option" where
  "litMatch ci [] s = Some s"
| "litMatch ci (p # ps) [] = None"
| "litMatch ci (p # ps) (c # cs) =
     (if (if ci then toLowerChar p = toLowerChar c else p = c) then litMatch ci ps cs else None)"

fun clsRun :: "(char \<Rightarrow> bool) \<Rightarrow> nat option \<Rightarrow> string \<Rightarrow> nat" where
  "clsRun P hi [] = 0"
| "clsRun P hi (c # cs) =
     (if hi = Some 0 \<or> \<not> P c then 0
      else Suc (clsRun P (map_option (\<lambda>n. n - 1) hi) cs))"

definition advance :: "mstate \<Rightarrow> nat \<Rightarrow> mstate" where
  "advance st k =
     (if k = 0 then st
      else st\<lparr>mprev := Some (last (take k (mrest st))), mrest := drop k (mrest st)\<rparr>)"

primrec rmatch :: "regex \<Rightarrow> bool \<Rightarrow> mstate \<Rightarrow> mstate list" where
  "rmatch (Lit p) ci st =
     (case litMatch ci p (mrest st) of None \<Rightarrow> [] | Some s' \<Rightarrow> [advance st (length p)])"
| "rmatch (Cls neg rs lo hi) ci st =
     (let n = clsRun (clsMatch ci neg rs) hi (mrest st)
      in map (advance st) (rev [lo ..< Suc n]))"
| "rmatch (Seq r1 r2) ci st = concat (map (rmatch r2 ci) (rmatch r1 ci st))"
| "rmatch (Alt r1 r2) ci st = rmatch r1 ci st @ rmatch r2 ci st"
| "rmatch (Opt r) ci st = rmatch r ci st @ [st]"
| "rmatch (Grp i r) ci st =
     map (\<lambda>st'. st'\<lparr>mcaps := (i, take (length (mrest st) - length (mrest st')) (mrest st)) # mcaps st'\<rparr>)
       (rmatch r ci st)"
| "rmatch WordB ci st =
     (if (case mprev st of None \<Rightarrow> False | Some c \<Rightarrow> isWordChar c)
         \<noteq> (case mrest st of [] \<Rightarrow> False | c # _ \<Rightarrow> isWordChar c)
      then [st] else [])"

fun findMatch :: "pattern \<Rightarrow> char option \<Rightarrow> string \<Rightarrow> (nat \<times> mstate) option" where
  "findMatch p pr [] =
     (case rmatch (expr p) (foldCase p) \<lparr>mprev = pr, mrest = [], mcaps = []\<rparr> of
        [] \<Rightarrow> None | m # _ \<Rightarrow> Some (0, m))"
| "findMatch p pr (c # cs) =
     (case rmatch (expr p) (foldCase p) \<lparr>mprev = pr, mrest = c # cs, mcaps = []\<rparr> of
        [] \<Rightarrow> (case findMatch p (Some c) cs of None \<Rightarrow> None | Some (i, m) \<Rightarrow> Some (Suc i, m))
      | m # _ \<Rightarrow> Some (0, m))"



text \<open>
  \<^verbatim>\<open>ReplaceAllString(src, repl)\<close> expands the template \<^verbatim>\<open>repl\<close> at every match:
  \<^verbatim>\<open>$name\<close> and \<^verbatim>\<open>${name}\<close> stand for a capture group, where \<^verbatim>\<open>name\<close> is the longest
  run of letters, digits and underscores; \<^verbatim>\<open>$$\<close> is a dollar sign; a name that is
  not a number refers to a named group, of which the patterns here have none, so it
  expands to nothing. \<open>extractRef\<close> is the package's \<^verbatim>\<open>extract\<close> and \<open>expand\<close> its
  \<^verbatim>\<open>expand\<close>.
\<close>

definition isDigit :: "char \<Rightarrow> bool" where
  "isDigit c = (CHR ''0'' \<le> c \<and> c \<le> CHR ''9'')"

definition isLetter :: "char \<Rightarrow> bool" where
  "isLetter c = ((CHR ''A'' \<le> c \<and> c \<le> CHR ''Z'') \<or> (CHR ''a'' \<le> c \<and> c \<le> CHR ''z''))"

definition isNameChar :: "char \<Rightarrow> bool" where
  "isNameChar c = (isLetter c \<or> isDigit c \<or> c = CHR ''_'')"

fun groupNumber :: "nat \<Rightarrow> string \<Rightarrow> nat option" where
  "groupNumber num [] = Some num"
| "groupNumber num (c # cs) =
     (if \<not> isDigit c \<or> num \<ge> 100000000 then None
      else groupNumber (num * 10 + (of_char c - of_char (CHR ''0''))) cs)"

definition extractRef :: "string \<Rightarrow> (string \<times> nat option \<times> string) option" where
  "extractRef str =
     (if str = [] then None
      else let brace = (hd str = CHR ''{'');
               str1 = (if brace then tl str else str);
               name = takeWhile isNameChar str1;
               after = dropWhile isNameChar str1
           in if name = [] then None
              else if brace \<and> (after = [] \<or> hd after \<noteq> CHR ''}'') then None
              else Some (name,
                         (if hd name = CHR ''0'' \<and> length name > 1 then None else groupNumber 0 name),
                         (if brace then tl after else after)))"

lemma dropWhile_shorter: "takeWhile P xs \<noteq> [] \<Longrightarrow> length (dropWhile P xs) < length xs"
  by (cases xs) (auto simp: less_Suc_eq_le length_dropWhile_le split: if_splits)

lemma extractRef_shorter:
  assumes "extractRef str = Some (name, num, r)"
  shows "length r < length str"
proof (cases "hd str = CHR ''{''")
  case True
  from assms have ne: "str \<noteq> []" by (auto simp: extractRef_def)
  from assms True ne have r: "r = tl (dropWhile isNameChar (tl str))"
    and a: "dropWhile isNameChar (tl str) \<noteq> []"
    by (auto simp: extractRef_def Let_def split: if_splits)
  have "length r < length (dropWhile isNameChar (tl str))" using r a by (cases "dropWhile isNameChar (tl str)") auto
  also have "\<dots> \<le> length (tl str)" by (rule length_dropWhile_le)
  also have "\<dots> \<le> length str" by simp
  finally show ?thesis .
next
  case False
  from assms False have r: "r = dropWhile isNameChar str" and t: "takeWhile isNameChar str \<noteq> []"
    by (auto simp: extractRef_def Let_def split: if_splits)
  show ?thesis using dropWhile_shorter [OF t] r by simp
qed

function expand :: "string \<Rightarrow> (nat \<times> string) list \<Rightarrow> string" where
  "expand [] groups = []"
| "expand (c # cs) groups =
     (if c \<noteq> CHR ''$'' then c # expand cs groups
      else if cs \<noteq> [] \<and> hd cs = CHR ''$'' then CHR ''$'' # expand (tl cs) groups
      else case extractRef cs of
             None \<Rightarrow> CHR ''$'' # expand cs groups
           | Some (name, num, r) \<Rightarrow>
               (case num of
                  None \<Rightarrow> []
                | Some n \<Rightarrow> (case map_of groups n of None \<Rightarrow> [] | Some g \<Rightarrow> g)) @ expand r groups)"
  by pat_completeness auto
termination
  apply (relation "measure (\<lambda>(t, g). length t)")
      apply simp_all
  subgoal premises prems for c cs x2 x y xa ya
  proof -
    have "x2 = (x, xa, ya)" using prems(4) prems(5) by simp
    with prems(3) have "extractRef cs = Some (x, xa, ya)" by simp
    from extractRef_shorter [OF this] show ?thesis by simp
  qed
  done

lemma findMatch_le: "findMatch p pr s = Some (i, m) \<Longrightarrow> i \<le> length s"
  by (induction s arbitrary: pr i m) (auto split: list.splits option.splits)

text \<open>
  The loop of \<^verbatim>\<open>replaceAll\<close>: \<open>s\<close> is the text from \<^verbatim>\<open>searchPos\<close> on, \<open>pending\<close>
  the text between \<^verbatim>\<open>lastMatchEnd\<close> and \<^verbatim>\<open>searchPos\<close> (one byte after an empty
  match, nothing otherwise), \<open>atStart\<close> says that \<^verbatim>\<open>searchPos\<close> is 0. A replacement is
  written unless the match is empty and directly follows the previous match; after an
  empty match the search moves one byte on.
\<close>

function replaceLoop ::
  "pattern \<Rightarrow> string \<Rightarrow> bool \<Rightarrow> string \<Rightarrow> char option \<Rightarrow> string \<Rightarrow> string" where
  "replaceLoop p tmpl atStart pending pr s =
     (case findMatch p pr s of
        None \<Rightarrow> pending @ s
      | Some (i, m) \<Rightarrow>
          (let len = length (drop i s) - length (mrest m);
               matched = take len (drop i s);
               emit = (pending \<noteq> [] \<or> i > 0 \<or> len > 0 \<or> atStart);
               out = pending @ take i s @ (if emit then expand tmpl ((0, matched) # mcaps m) else [])
           in if i = 0 \<and> len = 0 then
                (case s of [] \<Rightarrow> out | c # cs \<Rightarrow> out @ replaceLoop p tmpl False [c] (Some c) cs)
              else out @ replaceLoop p tmpl False [] (Some (last (take (i + len) s))) (drop (i + len) s)))"
  by pat_completeness auto
termination
  apply (relation "measure (\<lambda>(p, tmpl, atStart, pending, pr, s). length s)")
    apply simp
   apply simp
  subgoal premises prems for p tmpl atStart pending pr s x2 x y xa xb xc xd
  proof -
    have f: "findMatch p pr s = Some (x, y)" using prems(1) prems(2) by simp
    have le: "x \<le> length s" using findMatch_le [OF f] .
    have n: "\<not> (x = 0 \<and> xa = 0)" using prems(7) .
    have xa: "xa \<le> length s - x" using prems(3) by simp
    from le n xa have "s \<noteq> []" and "x + xa > 0" by auto
    then show ?thesis by simp
  qed
  done

definition ReplaceAllString :: "pattern \<Rightarrow> string \<Rightarrow> string \<Rightarrow> string" where
  "ReplaceAllString p src repl = replaceLoop p repl True [] None src"

section \<open>Plain text: the pattern detector\<close>

text \<open>\<^verbatim>\<open>sanitizeText\<close> applies every pattern in order with the template
  \<^verbatim>\<open>"$1" + Mask\<close>.\<close>

definition sanitizeText :: "SanitizerConfig \<Rightarrow> string \<Rightarrow> string" where
  "sanitizeText cfg text =
     fold (\<lambda>pattern result. ReplaceAllString pattern result (''$1'' @ Mask cfg))
       (SensitivePatterns cfg) text"

section \<open>Content classification\<close>

text \<open>\<^verbatim>\<open>strings.TrimSpace\<close> on the ASCII white space (Go also trims the Unicode spaces
  outside ASCII).\<close>

definition isSpace :: "char \<Rightarrow> bool" where
  "isSpace c = (c = CHR '' '' \<or> (CHR 0x09 \<le> c \<and> c \<le> CHR 0x0D))"

definition trimSpace :: "string \<Rightarrow> string" where
  "trimSpace s = rev (dropWhile isSpace (rev (dropWhile isSpace s)))"

definition isJSON :: "string \<Rightarrow> bool" where
  "isJSON contentType =
     (let ct = toLower contentType
      in contains ct ''application/json'' \<or> contains ct ''application/vnd.api+json''
         \<or> contains ct ''text/json'' \<or> hasSuffix ct ''+json'')"

definition isXML :: "string \<Rightarrow> bool" where
  "isXML contentType =
     (let ct = toLower contentType
      in contains ct ''application/xml'' \<or> contains ct ''text/xml'' \<or> hasSuffix ct ''+xml'')"

definition isFormURLEncoded :: "string \<Rightarrow> bool" where
  "isFormURLEncoded contentType = contains (toLower contentType) ''application/x-www-form-urlencoded''"

definition isMultipartForm :: "string \<Rightarrow> bool" where
  "isMultipartForm contentType = contains (toLower contentType) ''multipart/form-data''"

definition binaryTypes :: "string list" where
  "binaryTypes = [''application/octet-stream'', ''application/pdf'', ''image/'', ''audio/'',
     ''video/'', ''application/zip'', ''application/gzip'', ''application/x-tar'']"

definition isBinaryContent :: "string \<Rightarrow> bool" where
  "isBinaryContent contentType = list_ex (contains (toLower contentType)) binaryTypes"

definition looksLikeJSON :: "string \<Rightarrow> bool" where
  "looksLikeJSON body =
     (let trimmed = trimSpace body
      in if length trimmed = 0 then False
         else (hd trimmed = CHR ''{'' \<and> last trimmed = CHR ''}'')
              \<or> (hd trimmed = CHR ''['' \<and> last trimmed = CHR '']''))"

definition looksLikeXML :: "string \<Rightarrow> bool" where
  "looksLikeXML body =
     (let trimmed = trimSpace body in hasPrefix trimmed ''<'' \<and> hasSuffix trimmed ''>'')"

text \<open>\<^verbatim>\<open>looksLikeBase64\<close> compares \<^verbatim>\<open>float64(validChars)/float64(len(sample))\<close> with
  \<^verbatim>\<open>0.9\<close>. With at most 1000 sampled bytes the quotient exceeds the constant exactly
  when \<open>10 * validChars > 9 * len(sample)\<close>, which is what the model tests.\<close>

definition base64Chars :: string where
  "base64Chars = ''ABCDEFGHIJKLMNOPQRSTUVWXYZabcdefghijklmnopqrstuvwxyz0123456789+/=''"

definition looksLikeBase64 :: "string \<Rightarrow> bool" where
  "looksLikeBase64 body =
     (if length body < 100 then False
      else let sample = (if length body > 1000 then take 1000 body else body);
               validChars = length (filter (\<lambda>b. b \<in> set base64Chars \<or> b = CHR 0x0A \<or> b = CHR 0x0D) sample)
           in 10 * validChars > 9 * length sample)"

section \<open>The default configuration\<close>

fun seqs :: "regex list \<Rightarrow> regex" where
  "seqs [] = Lit []"
| "seqs [r] = r"
| "seqs (r # rs) = Seq r (seqs rs)"

fun alts :: "regex list \<Rightarrow> regex" where
  "alts [] = Lit []"
| "alts [r] = r"
| "alts (r # rs) = Alt r (alts rs)"

definition chars :: "string \<Rightarrow> (char \<times> char) list" where
  "chars s = map (\<lambda>c. (c, c)) s"

definition spaceClass :: "(char \<times> char) list" where
  "spaceClass = [(CHR 0x09, CHR 0x0A), (CHR 0x0C, CHR 0x0D), (CHR '' '', CHR '' '')]"

definition lowerR :: "char \<times> char" where "lowerR = (CHR ''a'', CHR ''z'')"
definition upperR :: "char \<times> char" where "upperR = (CHR ''A'', CHR ''Z'')"
definition digitR :: "char \<times> char" where "digitR = (CHR ''0'', CHR ''9'')"

text \<open>The ten patterns of \<^verbatim>\<open>DefaultSanitizerConfig\<close>, in the order of the source; the
  source text of each pattern stands before its transcription.\<close>

text \<open>\<^verbatim>\<open>(?i)(bearer\s+)[a-zA-Z0-9\-._~+/]+=*\<close>\<close>

definition bearerPattern :: pattern where
  "bearerPattern =
     \<lparr>foldCase = True, expr = seqs [
        Grp 1 (seqs [Lit ''bearer'', Cls False spaceClass 1 None]),
        Cls False ([lowerR, upperR, digitR] @ chars ''-._~+/'') 1 None,
        Cls False (chars ''='') 0 None]\<rparr>"

text \<open>\<^verbatim>\<open>(?i)(api[_-]?key["']?\s*[:=]\s*["']?)[a-zA-Z0-9\-_]{20,}\<close>\<close>

definition apiKeyPattern :: pattern where
  "apiKeyPattern =
     \<lparr>foldCase = True, expr = seqs [
        Grp 1 (seqs [Lit ''api'', Cls False (chars ''_-'') 0 (Some 1), Lit ''key'',
          Cls False [(CHR 0x22, CHR 0x22), (CHR 0x27, CHR 0x27)] 0 (Some 1),
          Cls False spaceClass 0 None, Cls False (chars '':='') 1 (Some 1),
          Cls False spaceClass 0 None,
          Cls False [(CHR 0x22, CHR 0x22), (CHR 0x27, CHR 0x27)] 0 (Some 1)]),
        Cls False ([lowerR, upperR, digitR] @ chars ''-_'') 20 None]\<rparr>"

text \<open>\<^verbatim>\<open>(?i)(x-api-key:\s*)[a-zA-Z0-9\-_]{20,}\<close>\<close>

definition xApiKeyPattern :: pattern where
  "xApiKeyPattern =
     \<lparr>foldCase = True, expr = seqs [
        Grp 1 (seqs [Lit ''x-api-key:'', Cls False spaceClass 0 None]),
        Cls False ([lowerR, upperR, digitR] @ chars ''-_'') 20 None]\<rparr>"

text \<open>\<^verbatim>\<open>(AKIA[0-9A-Z]{16})\<close>\<close>

definition awsAccessKeyPattern :: pattern where
  "awsAccessKeyPattern =
     \<lparr>foldCase = False, expr =
        Grp 1 (seqs [Lit ''AKIA'', Cls False [digitR, upperR] 16 (Some 16)])\<rparr>"

text \<open>\<^verbatim>\<open>(?i)(aws[_-]?secret[_-]?access[_-]?key["']?\s*[:=]\s*["']?)([a-zA-Z0-9/+=]{40})\<close>\<close>

definition awsSecretPattern :: pattern where
  "awsSecretPattern =
     \<lparr>foldCase = True, expr = seqs [
        Grp 1 (seqs [Lit ''aws'', Cls False (chars ''_-'') 0 (Some 1), Lit ''secret'',
          Cls False (chars ''_-'') 0 (Some 1), Lit ''access'',
          Cls False (chars ''_-'') 0 (Some 1), Lit ''key'',
          Cls False [(CHR 0x22, CHR 0x22), (CHR 0x27, CHR 0x27)] 0 (Some 1),
          Cls False spaceClass 0 None, Cls False (chars '':='') 1 (Some 1),
          Cls False spaceClass 0 None,
          Cls False [(CHR 0x22, CHR 0x22), (CHR 0x27, CHR 0x27)] 0 (Some 1)]),
        Grp 2 (Cls False ([lowerR, upperR, digitR] @ chars ''/+='') 40 (Some 40))]\<rparr>"

text \<open>\<^verbatim>\<open>(AIza[0-9A-Za-z\-_]{35})\<close>\<close>

definition googleKeyPattern :: pattern where
  "googleKeyPattern =
     \<lparr>foldCase = False, expr =
        Grp 1 (seqs [Lit ''AIza'', Cls False ([digitR, upperR, lowerR] @ chars ''-_'') 35 (Some 35)])\<rparr>"

text \<open>\<^verbatim>\<open>(gh[ps]_[a-zA-Z0-9]{36})\<close>\<close>

definition githubTokenPattern :: pattern where
  "githubTokenPattern =
     \<lparr>foldCase = False, expr =
        Grp 1 (seqs [Lit ''gh'', Cls False (chars ''ps'') 1 (Some 1), Lit ''_'',
          Cls False [lowerR, upperR, digitR] 36 (Some 36)])\<rparr>"

text \<open>\<^verbatim>\<open>(eyJ[a-zA-Z0-9_-]*\.eyJ[a-zA-Z0-9_-]*\.[a-zA-Z0-9_-]*)\<close>\<close>

definition jwtPattern :: pattern where
  "jwtPattern =
     \<lparr>foldCase = False, expr =
        Grp 1 (seqs [Lit ''eyJ'', Cls False ([lowerR, upperR, digitR] @ chars ''_-'') 0 None,
          Lit ''.eyJ'', Cls False ([lowerR, upperR, digitR] @ chars ''_-'') 0 None,
          Lit ''.'', Cls False ([lowerR, upperR, digitR] @ chars ''_-'') 0 None])\<rparr>"

text \<open>\<^verbatim>\<open>-----BEGIN (RSA |EC |OPENSSH )?PRIVATE KEY-----\<close>\<close>

definition privateKeyPattern :: pattern where
  "privateKeyPattern =
     \<lparr>foldCase = False, expr = seqs [
        Lit ''-----BEGIN '',
        Opt (Grp 1 (alts [Lit ''RSA '', Lit ''EC '', Lit ''OPENSSH ''])),
        Lit ''PRIVATE KEY-----'']\<rparr>"

text \<open>\<^verbatim>\<open>\b(?:4[0-9]{12}(?:[0-9]{3})?|5[1-5][0-9]{14}|3[47][0-9]{13}|3(?:0[0-5]|[68][0-9])[0-9]{11}|6(?:011|5[0-9]{2})[0-9]{12})\b\<close>\<close>

definition creditCardPattern :: pattern where
  "creditCardPattern =
     \<lparr>foldCase = False, expr = seqs [
        WordB,
        alts [
          seqs [Lit ''4'', Cls False [digitR] 12 (Some 12), Opt (Cls False [digitR] 3 (Some 3))],
          seqs [Lit ''5'', Cls False [(CHR ''1'', CHR ''5'')] 1 (Some 1), Cls False [digitR] 14 (Some 14)],
          seqs [Lit ''3'', Cls False (chars ''47'') 1 (Some 1), Cls False [digitR] 13 (Some 13)],
          seqs [Lit ''3'',
            alts [seqs [Lit ''0'', Cls False [(CHR ''0'', CHR ''5'')] 1 (Some 1)],
                  seqs [Cls False (chars ''68'') 1 (Some 1), Cls False [digitR] 1 (Some 1)]],
            Cls False [digitR] 11 (Some 11)],
          seqs [Lit ''6'',
            alts [Lit ''011'', seqs [Lit ''5'', Cls False [digitR] 2 (Some 2)]],
            Cls False [digitR] 12 (Some 12)]],
        WordB]\<rparr>"

definition defaultPatterns :: "pattern list" where
  "defaultPatterns = [bearerPattern, apiKeyPattern, xApiKeyPattern, awsAccessKeyPattern, awsSecretPattern,
     googleKeyPattern, githubTokenPattern, jwtPattern, privateKeyPattern, creditCardPattern]"

definition defaultSensitiveFields :: "string list" where
  "defaultSensitiveFields = [
     ''password'', ''passwd'', ''pwd'', ''secret'', ''token'',
     ''api_key'', ''apikey'', ''api_secret'', ''access_token'', ''refresh_token'',
     ''client_secret'', ''client_id'', ''authorization'', ''auth'',
     ''bearer'', ''session'', ''session_id'', ''cookie'',
     ''ssn'', ''social_security'', ''passport'', ''driver_license'',
     ''tax_id'', ''ein'', ''vat'',
     ''credit_card'', ''card_number'', ''card_num'', ''cvv'', ''cvc'',
     ''pin'', ''account_number'', ''routing_number'', ''iban'', ''swift'',
     ''private_key'', ''public_key'', ''encryption_key'', ''signing_key'',
     ''certificate'', ''cert'', ''key'', ''pem'',
     ''stripe_key'', ''aws_secret'', ''gcp_key'', ''azure_key'',
     ''webhook_secret'', ''signing_secret'']"

definition defaultSensitiveHeaders :: "string list" where
  "defaultSensitiveHeaders = [
     ''authorization'', ''proxy-authorization'', ''cookie'', ''set-cookie'',
     ''x-api-key'', ''x-auth-token'', ''x-access-token'', ''api-key'', ''apikey'']"

definition defaultBodyRules :: "BodyProcessingRule list" where
  "defaultBodyRules = [
     \<lparr>Condition = (\<lambda>contentType body size. isBinaryContent contentType),
      Action = BodyActionSkip, Message = ''[Binary content - not logged]''\<rparr>,
     \<lparr>Condition = (\<lambda>contentType body size. size > 1024 \<and> looksLikeBase64 body),
      Action = BodyActionSkip, Message = ''[Base64 encoded data - not logged]''\<rparr>,
     \<lparr>Condition = (\<lambda>contentType body size. size > 500 * 1024 \<and> (isJSON contentType \<or> isXML contentType)),
      Action = BodyActionSummarize, Message = []\<rparr>,
     \<lparr>Condition = (\<lambda>contentType body size. size > 100 * 1024),
      Action = BodyActionTruncate, Message = []\<rparr>]"

definition DefaultSanitizerConfig :: SanitizerConfig where
  "DefaultSanitizerConfig =
     \<lparr>SensitiveFields = defaultSensitiveFields,
      SensitivePatterns = defaultPatterns,
      Mask = ''***REDACTED***'',
      MaxBodySize = 100 * 1024,
      BodyRules = defaultBodyRules,
      HeaderMaskMode = HeaderMaskPartial,
      SensitiveHeaders = defaultSensitiveHeaders\<rparr>"

text \<open>\<^verbatim>\<open>NewSanitizer\<close>: a nil configuration is the default one, and an empty header list
  is replaced by the default headers. The sanitizer is its configuration.\<close>

definition NewSanitizer :: "SanitizerConfig option \<Rightarrow> SanitizerConfig" where
  "NewSanitizer config =
     (let c = (case config of None \<Rightarrow> DefaultSanitizerConfig | Some c \<Rightarrow> c)
      in if length (SensitiveHeaders c) = 0
         then c\<lparr>SensitiveHeaders := SensitiveHeaders DefaultSanitizerConfig\<rparr> else c)"

lemmas [ev] = extractRef_def isNameChar_def isLetter_def isDigit_def less_eq_char_def less_char_def Let_def
  ReplaceAllString_def sanitizeText_def DefaultSanitizerConfig_def defaultPatterns_def
  bearerPattern_def apiKeyPattern_def xApiKeyPattern_def awsAccessKeyPattern_def awsSecretPattern_def
  googleKeyPattern_def githubTokenPattern_def jwtPattern_def privateKeyPattern_def creditCardPattern_def
  chars_def spaceClass_def lowerR_def upperR_def digitR_def advance_def clsMatch_def isWordChar_def
  toLowerChar_def toUpperChar_def upperLetters_def lowerLetters_def toLower_def

section \<open>JSON (Go's encoding/json package)\<close>


datatype json =
    JNull
  | JBool bool
  | JNumber string
  | JString string
  | JArray "json list"
  | JObject "(string \<times> json) list"

datatype token =
    TLBrace | TRBrace | TLBracket | TRBracket | TColon | TComma
  | TString string | TNumber string | TTrue | TFalse | TNull

definition hexDigits :: string where "hexDigits = ''0123456789abcdef''"

definition hexVal :: "char \<Rightarrow> nat option" where
  "hexVal c = (case index hexDigits [toLowerChar c] of None \<Rightarrow> None | Some i \<Rightarrow> Some i)"

definition getu4 :: "string \<Rightarrow> nat option" where
  "getu4 s =
     (if length s < 4 then None
      else case (hexVal (s ! 0), hexVal (s ! 1), hexVal (s ! 2), hexVal (s ! 3)) of
             (Some a, Some b, Some c, Some d) \<Rightarrow> Some (((a * 16 + b) * 16 + c) * 16 + d)
           | _ \<Rightarrow> None)"

definition byte :: "nat \<Rightarrow> char" where
  "byte n = char_of n"

definition encodeRune :: "nat \<Rightarrow> string" where
  "encodeRune r =
     (if r < 128 then [byte r]
      else if r < 2048 then [byte (192 + r div 64), byte (128 + r mod 64)]
      else if r < 65536 then
        [byte (224 + r div 4096), byte (128 + (r div 64) mod 64), byte (128 + r mod 64)]
      else [byte (240 + r div 262144), byte (128 + (r div 4096) mod 64),
            byte (128 + (r div 64) mod 64), byte (128 + r mod 64)])"

definition isSurrogate :: "nat \<Rightarrow> bool" where
  "isSurrogate r = (55296 \<le> r \<and> r < 57344)"

text \<open>The text after \<^verbatim>\<open>\u\<close>: the code point and the number of bytes consumed. A high
  surrogate followed by an escaped low surrogate is one code point; any other surrogate
  is U+FFFD.\<close>

definition lexUnicode :: "string \<Rightarrow> (nat \<times> nat) option" where
  "lexUnicode cs =
     (case getu4 cs of
        None \<Rightarrow> None
      | Some rr \<Rightarrow>
          if isSurrogate rr then
            (case (if hasPrefix (drop 4 cs) [CHR 0x5C, CHR ''u''] then getu4 (drop 6 cs) else None) of
               None \<Rightarrow> Some (65533, 4)
             | Some rr1 \<Rightarrow>
                 if rr < 56320 \<and> 56320 \<le> rr1 \<and> rr1 < 57344
                 then Some ((rr - 55296) * 1024 + (rr1 - 56320) + 65536, 10)
                 else Some (65533, 4))
          else Some (rr, 4))"

text \<open>The text after a backslash: the decoded bytes and the number of bytes consumed.\<close>

definition lexEscape :: "string \<Rightarrow> (string \<times> nat) option" where
  "lexEscape s =
     (case s of
        [] \<Rightarrow> None
      | c # cs \<Rightarrow>
          if c = CHR 0x22 \<or> c = CHR 0x5C \<or> c = CHR ''/'' then Some ([c], 1)
          else if c = CHR ''b'' then Some ([CHR 0x08], 1)
          else if c = CHR ''f'' then Some ([CHR 0x0C], 1)
          else if c = CHR ''n'' then Some ([CHR 0x0A], 1)
          else if c = CHR ''r'' then Some ([CHR 0x0D], 1)
          else if c = CHR ''t'' then Some ([CHR 0x09], 1)
          else if c = CHR ''u'' then
            (case lexUnicode cs of None \<Rightarrow> None | Some (r, n) \<Rightarrow> Some (encodeRune r, Suc n))
          else None)"

lemma encodeRune_len: "length (encodeRune r) \<le> 4"
  by (simp add: encodeRune_def)

lemma getu4_len: "getu4 s = Some r \<Longrightarrow> 4 \<le> length s"
  by (simp add: getu4_def split: if_splits)

lemma lexUnicode_len: "lexUnicode cs = Some (r, n) \<Longrightarrow> 4 \<le> n \<and> n \<le> length cs"
proof -
  assume a: "lexUnicode cs = Some (r, n)"
  then obtain rr where g: "getu4 cs = Some rr" by (auto simp: lexUnicode_def split: option.splits)
  have l4: "4 \<le> length cs" using getu4_len [OF g] .
  show ?thesis
  proof (cases "n = 10")
    case True
    with a g obtain rr1 where "getu4 (drop 6 cs) = Some rr1"
      by (auto simp: lexUnicode_def split: option.splits if_splits)
    from getu4_len [OF this] have "10 \<le> length cs" by simp
    with True show ?thesis by simp
  next
    case False
    with a g have "n = 4" by (auto simp: lexUnicode_def split: option.splits if_splits)
    with l4 show ?thesis by simp
  qed
qed

lemma lexEscape_len: "lexEscape s = Some (bs, n) \<Longrightarrow> length bs \<le> n \<and> 0 < n \<and> n \<le> length s"
proof (cases s)
  case Nil
  assume "lexEscape s = Some (bs, n)"
  with Nil show ?thesis by (simp add: lexEscape_def)
next
  case (Cons c cs)
  assume a: "lexEscape s = Some (bs, n)"
  show ?thesis
  proof (cases "c = CHR ''u''")
    case True
    with a Cons obtain r m where u: "lexUnicode cs = Some (r, m)" and bs: "bs = encodeRune r" and n: "n = Suc m"
      by (auto simp: lexEscape_def split: option.splits)
    from lexUnicode_len [OF u] encodeRune_len [of r] bs n Cons show ?thesis by simp
  next
    case False
    with a Cons show ?thesis by (auto simp: lexEscape_def split: if_splits)
  qed
qed

lemma lexEscape_pos: "lexEscape s = Some (bs, n) \<Longrightarrow> 0 < n \<and> n \<le> length s"
  using lexEscape_len by blast

function lexString :: "string \<Rightarrow> (string \<times> string) option" where
  "lexString [] = None"
| "lexString (c # cs) =
     (if c = CHR 0x22 then Some ([], cs)
      else if c = CHR 0x5C then
        (case lexEscape cs of
           None \<Rightarrow> None
         | Some (bs, n) \<Rightarrow>
             (case lexString (drop n cs) of None \<Rightarrow> None | Some (s, r) \<Rightarrow> Some (bs @ s, r)))
      else if c < CHR 0x20 then None
      else (case lexString cs of None \<Rightarrow> None | Some (s, r) \<Rightarrow> Some (c # s, r)))"
  by pat_completeness auto
termination
  by (relation "measure length") auto


lemma lexString_shorter: "lexString s = Some (d, r) \<Longrightarrow> length r < length s"
proof (induction s arbitrary: d r rule: lexString.induct)
  case 1
  then show ?case by simp
next
  case (2 c cs)
  show ?case
  proof (cases "c = CHR 0x22")
    case True
    with 2(3) show ?thesis by simp
  next
    case q: False
    show ?thesis
    proof (cases "c = CHR 0x5C")
      case True
      with q 2(3) obtain bs n s' where e: "lexEscape cs = Some (bs, n)"
        and l: "lexString (drop n cs) = Some (s', r)"
        by (auto split: option.splits)
      from 2(1) [OF q True e refl l] have "length r < length (drop n cs)" .
      then show ?thesis by simp
    next
      case False
      with q 2(3) obtain s' where c: "\<not> c < CHR 0x20" and l: "lexString cs = Some (s', r)"
        by (auto split: option.splits if_splits)
      from 2(2) [OF q False c l] show ?thesis by simp
    qed
  qed
qed

definition isJSONSpace :: "char \<Rightarrow> bool" where
  "isJSONSpace c = (c = CHR '' '' \<or> c = CHR 0x09 \<or> c = CHR 0x0D \<or> c = CHR 0x0A)"

definition isNumChar :: "char \<Rightarrow> bool" where
  "isNumChar c = (isDigit c \<or> c = CHR ''-'' \<or> c = CHR ''+'' \<or> c = CHR ''.'' \<or> c = CHR ''e'' \<or> c = CHR ''E'')"

text \<open>The number grammar of JSON:
  \<^verbatim>\<open>-?(0|[1-9][0-9]*)(\.[0-9]+)?([eE][+-]?[0-9]+)?\<close>.\<close>

definition validExp :: "string \<Rightarrow> bool" where
  "validExp s =
     (if s = [] then True
      else if hd s = CHR ''e'' \<or> hd s = CHR ''E'' then
        (let t = (if tl s \<noteq> [] \<and> (hd (tl s) = CHR ''+'' \<or> hd (tl s) = CHR ''-'') then tl (tl s) else tl s)
         in t \<noteq> [] \<and> list_all isDigit t)
      else False)"

definition validFrac :: "string \<Rightarrow> bool" where
  "validFrac s =
     (if s \<noteq> [] \<and> hd s = CHR ''.'' then
        takeWhile isDigit (tl s) \<noteq> [] \<and> validExp (dropWhile isDigit (tl s))
      else validExp s)"

definition validNumber :: "string \<Rightarrow> bool" where
  "validNumber s =
     (let s1 = (if s \<noteq> [] \<and> hd s = CHR ''-'' then tl s else s);
          ds = takeWhile isDigit s1
      in ds \<noteq> [] \<and> (if hd ds = CHR ''0'' then length ds = 1 else True)
         \<and> validFrac (dropWhile isDigit s1))"

text \<open>
  Decoding into an \<^verbatim>\<open>interface{}\<close> turns a number into a \<^verbatim>\<open>float64\<close> with
  \<^verbatim>\<open>strconv.ParseFloat\<close>, which fails when the value rounds to infinity, that is when its
  magnitude is at least \<^verbatim>\<open>2^1024 - 2^970\<close>. The value of a literal is
  \<open>mantissa * 10 ^ exponent\<close>; \<^verbatim>\<open>ParseFloat\<close> stops accumulating the digits of the written
  exponent once they have reached 10000.
\<close>

definition digitVal :: "char \<Rightarrow> nat" where
  "digitVal c = (case index ''0123456789'' [c] of None \<Rightarrow> 0 | Some i \<Rightarrow> i)"

definition digitsVal :: "string \<Rightarrow> nat" where
  "digitsVal ds = foldl (\<lambda>n c. n * 10 + digitVal c) 0 ds"

definition expVal :: "string \<Rightarrow> nat" where
  "expVal ds = foldl (\<lambda>e c. if e < 10000 then e * 10 + digitVal c else e) 0 ds"

definition decimal :: "string \<Rightarrow> nat \<times> int" where
  "decimal s =
     (let s1 = (if s \<noteq> [] \<and> hd s = CHR ''-'' then tl s else s);
          ip = takeWhile isDigit s1;
          r1 = dropWhile isDigit s1;
          fp = (if r1 \<noteq> [] \<and> hd r1 = CHR ''.'' then takeWhile isDigit (tl r1) else []);
          r2 = (if r1 \<noteq> [] \<and> hd r1 = CHR ''.'' then dropWhile isDigit (tl r1) else r1);
          e = (if r2 = [] then 0
               else if tl r2 \<noteq> [] \<and> hd (tl r2) = CHR ''-'' then - int (expVal (tl (tl r2)))
               else if tl r2 \<noteq> [] \<and> hd (tl r2) = CHR ''+'' then int (expVal (tl (tl r2)))
               else int (expVal (tl r2)))
      in (digitsVal (ip @ fp), e - int (length fp)))"

definition float64Bound :: nat where
  "float64Bound = 2 ^ 1024 - 2 ^ 970"

definition outOfRange :: "string \<Rightarrow> bool" where
  "outOfRange s =
     (case decimal s of
        (m, k) \<Rightarrow> if 0 \<le> k then float64Bound \<le> m * 10 ^ nat k
                  else float64Bound * 10 ^ nat (- k) \<le> m)"

text \<open>One token at the head of a text that does not start with white space, and the
  text after it.\<close>

definition lexToken :: "string \<Rightarrow> (token \<times> string) option" where
  "lexToken s =
     (case s of
        [] \<Rightarrow> None
      | c # cs \<Rightarrow>
          if c = CHR ''{'' then Some (TLBrace, cs)
          else if c = CHR ''}'' then Some (TRBrace, cs)
          else if c = CHR ''['' then Some (TLBracket, cs)
          else if c = CHR '']'' then Some (TRBracket, cs)
          else if c = CHR '':'' then Some (TColon, cs)
          else if c = CHR '','' then Some (TComma, cs)
          else if c = CHR 0x22 then
            (case lexString cs of None \<Rightarrow> None | Some (str, r) \<Rightarrow> Some (TString str, r))
          else if isNumChar c then
            (if validNumber (takeWhile isNumChar s)
             then Some (TNumber (takeWhile isNumChar s), dropWhile isNumChar s) else None)
          else if isLetter c then
            (let w = takeWhile isLetter s
             in if w = ''true'' then Some (TTrue, dropWhile isLetter s)
                else if w = ''false'' then Some (TFalse, dropWhile isLetter s)
                else if w = ''null'' then Some (TNull, dropWhile isLetter s)
                else None)
          else None)"

lemma lexToken_shorter: "lexToken s = Some (t, r) \<Longrightarrow> length r < length s"
proof (cases s)
  case Nil
  assume "lexToken s = Some (t, r)"
  with Nil show ?thesis by (simp add: lexToken_def)
next
  case (Cons c cs)
  assume a: "lexToken s = Some (t, r)"
  have dn: "isNumChar c \<Longrightarrow> length (dropWhile isNumChar s) < length s"
    using Cons length_dropWhile_le [of isNumChar cs] by simp
  have dl: "isLetter c \<Longrightarrow> length (dropWhile isLetter s) < length s"
    using Cons length_dropWhile_le [of isLetter cs] by simp
  show ?thesis
  proof (cases "c = CHR 0x22")
    case True
    with a Cons obtain str where "lexString cs = Some (str, r)"
      by (auto simp: lexToken_def split: option.splits)
    from lexString_shorter [OF this] Cons show ?thesis by simp
  next
    case False
    with a Cons dn dl show ?thesis
      by (auto simp: lexToken_def Let_def split: if_splits)
  qed
qed

function lex :: "string \<Rightarrow> token list option" where
  "lex [] = Some []"
| "lex (c # cs) =
     (if isJSONSpace c then lex cs
      else case lexToken (c # cs) of
             None \<Rightarrow> None
           | Some (t, r) \<Rightarrow> map_option (Cons t) (lex r))"
  by pat_completeness auto
termination
proof (relation "measure length", goal_cases)
  case 1
  show ?case by simp
next
  case (2 c cs)
  show ?case by simp
next
  case (3 c cs x2 x y)
  then have "lexToken (c # cs) = Some (x, y)" by simp
  from lexToken_shorter [OF this] show ?case by simp
qed

text \<open>A Go map is modelled by its entries in the order of the keys (keys are distinct);
  \<open>mapSet\<close> is the assignment \<^verbatim>\<open>m[k] = v\<close>.\<close>

fun mapSet :: "string \<Rightarrow> 'a \<Rightarrow> (string \<times> 'a) list \<Rightarrow> (string \<times> 'a) list" where
  "mapSet k v [] = [(k, v)]"
| "mapSet k v ((k', v') # m) =
     (if k = k' then (k, v) # m
      else if k < k' then (k, v) # (k', v') # m
      else (k', v') # mapSet k v m)"

text \<open>The decoder gives up when more than 10000 arrays and objects are open at once;
  \<open>dep\<close> is the number of those open around the value being read.\<close>

definition maxNestingDepth :: nat where
  "maxNestingDepth = 10000"

fun parseValue :: "nat \<Rightarrow> nat \<Rightarrow> token list \<Rightarrow> (json \<times> token list) option"
  and parseElems :: "nat \<Rightarrow> nat \<Rightarrow> json list \<Rightarrow> token list \<Rightarrow> (json \<times> token list) option"
  and parseMembers :: "nat \<Rightarrow> nat \<Rightarrow> (string \<times> json) list \<Rightarrow> token list \<Rightarrow> (json \<times> token list) option"
  where
  "parseValue 0 dep ts = None"
| "parseValue (Suc n) dep [] = None"
| "parseValue (Suc n) dep (t # ts) =
     (case t of
        TNull \<Rightarrow> Some (JNull, ts)
      | TTrue \<Rightarrow> Some (JBool True, ts)
      | TFalse \<Rightarrow> Some (JBool False, ts)
      | TNumber x \<Rightarrow> if outOfRange x then None else Some (JNumber x, ts)
      | TString x \<Rightarrow> Some (JString x, ts)
      | TLBracket \<Rightarrow>
          if maxNestingDepth \<le> dep then None
          else (case ts of TRBracket # ts' \<Rightarrow> Some (JArray [], ts') | _ \<Rightarrow> parseElems n (Suc dep) [] ts)
      | TLBrace \<Rightarrow>
          if maxNestingDepth \<le> dep then None
          else (case ts of TRBrace # ts' \<Rightarrow> Some (JObject [], ts') | _ \<Rightarrow> parseMembers n (Suc dep) [] ts)
      | _ \<Rightarrow> None)"
| "parseElems 0 dep acc ts = None"
| "parseElems (Suc n) dep acc ts =
     (case parseValue n dep ts of
        None \<Rightarrow> None
      | Some (v, r) \<Rightarrow>
          (case r of
             TComma # r' \<Rightarrow> parseElems n dep (acc @ [v]) r'
           | TRBracket # r' \<Rightarrow> Some (JArray (acc @ [v]), r')
           | _ \<Rightarrow> None))"
| "parseMembers 0 dep acc ts = None"
| "parseMembers (Suc n) dep acc ts =
     (case ts of
        TString k # TColon # ts' \<Rightarrow>
          (case parseValue n dep ts' of
             None \<Rightarrow> None
           | Some (v, r) \<Rightarrow>
               (case r of
                  TComma # r' \<Rightarrow> parseMembers n dep (mapSet k v acc) r'
                | TRBrace # r' \<Rightarrow> Some (JObject (mapSet k v acc), r')
                | _ \<Rightarrow> None))
      | _ \<Rightarrow> None)"

text \<open>\<^verbatim>\<open>json.Unmarshal\<close> into an \<^verbatim>\<open>interface{}\<close>. Numbers are kept as their text (Go
  stores the \<^verbatim>\<open>float64\<close> and \<^verbatim>\<open>json.Marshal\<close> writes its shortest form), and the bytes
  of a string are kept as they are (Go replaces invalid UTF-8 by U+FFFD).\<close>

definition unmarshal :: "string \<Rightarrow> json option" where
  "unmarshal s =
     (case lex s of
        None \<Rightarrow> None
      | Some ts \<Rightarrow>
          (case parseValue (Suc (length ts)) 0 ts of
             Some (v, []) \<Rightarrow> Some v
           | _ \<Rightarrow> None))"

lemmas [ev] = lexToken_def lexUnicode_def unmarshal_def isJSONSpace_def isNumChar_def validNumber_def validFrac_def validExp_def
  lexEscape_def outOfRange_def decimal_def digitsVal_def digitVal_def expVal_def float64Bound_def
  maxNestingDepth_def

subsection \<open>Sizes: a parsed value is no larger than its text\<close>


fun tsize :: "token \<Rightarrow> nat" where
  "tsize (TString s) = length s + 2"
| "tsize _ = 1"

definition tsizes :: "token list \<Rightarrow> nat" where
  "tsizes ts = sum_list (map tsize ts)"

fun jsize :: "json \<Rightarrow> nat" where
  "jsize (JString s) = length s + 2"
| "jsize (JArray vs) = 2 + sum_list (map jsize vs)"
| "jsize (JObject kvs) = 2 + sum_list (map (\<lambda>(k, v). length k + 3 + jsize v) kvs)"
| "jsize _ = 1"

definition osize :: "(string \<times> json) list \<Rightarrow> nat" where
  "osize kvs = sum_list (map (\<lambda>(k, v). length k + 3 + jsize v) kvs)"


lemma lexString_size: "lexString s = Some (d, r) \<Longrightarrow> length d + 1 + length r \<le> length s"
proof (induction s arbitrary: d r rule: lexString.induct)
  case 1
  then show ?case by simp
next
  case (2 c cs)
  show ?case
  proof (cases "c = CHR 0x22")
    case True
    with 2(3) show ?thesis by simp
  next
    case q: False
    show ?thesis
    proof (cases "c = CHR 0x5C")
      case True
      with q 2(3) obtain bs n s' where e: "lexEscape cs = Some (bs, n)"
        and l: "lexString (drop n cs) = Some (s', r)" and d: "d = bs @ s'"
        by (auto split: option.splits)
      from 2(1) [OF q True e refl l] have "length s' + 1 + length r \<le> length (drop n cs)" .
      with lexEscape_len [OF e] d show ?thesis by simp arith
    next
      case False
      with q 2(3) obtain s' where c: "\<not> c < CHR 0x20" and l: "lexString cs = Some (s', r)"
        and d: "d = c # s'"
        by (auto split: option.splits if_splits)
      from 2(2) [OF q False c l] d show ?thesis by simp
    qed
  qed
qed

lemma length_takeWhile_dropWhile: "length (takeWhile P xs) + length (dropWhile P xs) = length xs"
  by (metis length_append takeWhile_dropWhile_id)

lemma lexToken_size: "lexToken s = Some (t, r) \<Longrightarrow> tsize t + length r \<le> length s"
proof (cases s)
  case Nil
  assume "lexToken s = Some (t, r)"
  with Nil show ?thesis by (simp add: lexToken_def)
next
  case (Cons c cs)
  assume a: "lexToken s = Some (t, r)"
  have dn: "isNumChar c \<Longrightarrow> length (dropWhile isNumChar s) < length s"
    using Cons length_dropWhile_le [of isNumChar cs] by simp
  have dl: "isLetter c \<Longrightarrow> length (dropWhile isLetter s) < length s"
    using Cons length_dropWhile_le [of isLetter cs] by simp
  show ?thesis
  proof (cases "c = CHR 0x22")
    case True
    with a Cons obtain str where l: "lexString cs = Some (str, r)" and t: "t = TString str"
      by (auto simp: lexToken_def split: option.splits)
    from lexString_size [OF l] Cons t show ?thesis by simp
  next
    case False
    with a Cons dn dl show ?thesis
      by (auto simp: lexToken_def Let_def split: if_splits)
  qed
qed

lemma lex_size: "lex s = Some ts \<Longrightarrow> tsizes ts \<le> length s"
proof (induction s arbitrary: ts rule: lex.induct)
  case 1
  then show ?case by (simp add: tsizes_def)
next
  case (2 c cs)
  show ?case
  proof (cases "isJSONSpace c")
    case True
    with "2.prems" have "lex cs = Some ts" by simp
    from "2.IH"(1) [OF True this] show ?thesis by simp
  next
    case False
    with "2.prems" obtain t r ts' where l: "lexToken (c # cs) = Some (t, r)"
      and r: "lex r = Some ts'" and ts: "ts = t # ts'"
      by (auto split: option.splits)
    from "2.IH"(2) [OF False l refl r] have "tsizes ts' \<le> length r" .
    with lexToken_size [OF l] ts show ?thesis by (simp add: tsizes_def)
  qed
qed


lemma osize_mapSet: "osize (mapSet k v acc) \<le> osize acc + length k + 3 + jsize v"
  by (induction acc) (auto simp: osize_def)

lemma tsizes_Cons [simp]: "tsizes (t # ts) = tsize t + tsizes ts"
  by (simp add: tsizes_def)

lemma tsizes_Nil [simp]: "tsizes [] = 0"
  by (simp add: tsizes_def)

lemma parse_size:
  "(\<forall>dep ts v r. parseValue n dep ts = Some (v, r) \<longrightarrow> jsize v + tsizes r \<le> tsizes ts)
   \<and> (\<forall>dep acc ts v r. parseElems n dep acc ts = Some (v, r) \<longrightarrow>
         jsize v + tsizes r \<le> 1 + sum_list (map jsize acc) + tsizes ts)
   \<and> (\<forall>dep acc ts v r. parseMembers n dep acc ts = Some (v, r) \<longrightarrow>
         jsize v + tsizes r \<le> 1 + osize acc + tsizes ts)"
proof (induction n)
  case 0
  show ?case by simp
next
  case (Suc n)
  note ihV = Suc.IH [THEN conjunct1, rule_format]
  note ihE = Suc.IH [THEN conjunct2, THEN conjunct1, rule_format]
  note ihM = Suc.IH [THEN conjunct2, THEN conjunct2, rule_format]
  have v: "jsize v + tsizes r \<le> tsizes ts" if a: "parseValue (Suc n) dep ts = Some (v, r)" for dep ts v r
  proof (cases ts)
    case Nil
    with a show ?thesis by simp
  next
    case (Cons t ts')
    show ?thesis
    proof (cases t)
      case TLBracket
      show ?thesis
      proof (cases "\<exists>ts''. ts' = TRBracket # ts''")
        case True
        with a Cons TLBracket show ?thesis by (auto split: if_splits)
      next
        case False
        with a Cons TLBracket have "parseElems n (Suc dep) [] ts' = Some (v, r)"
          by (auto split: list.splits token.splits if_splits)
        from ihE [OF this] Cons TLBracket show ?thesis by simp
      qed
    next
      case TLBrace
      show ?thesis
      proof (cases "\<exists>ts''. ts' = TRBrace # ts''")
        case True
        with a Cons TLBrace show ?thesis by (auto split: if_splits)
      next
        case False
        with a Cons TLBrace have "parseMembers n (Suc dep) [] ts' = Some (v, r)"
          by (auto split: list.splits token.splits if_splits)
        from ihM [OF this] Cons TLBrace show ?thesis by (simp add: osize_def)
      qed
    qed (use a Cons in \<open>auto split: if_splits\<close>)
  qed
  have e: "jsize v + tsizes r \<le> 1 + sum_list (map jsize acc) + tsizes ts"
    if a: "parseElems (Suc n) dep acc ts = Some (v, r)" for dep acc ts v r
  proof -
    from a obtain v1 r1 where p: "parseValue n dep ts = Some (v1, r1)"
      by (auto split: option.splits)
    from ihV [OF p] have b: "jsize v1 + tsizes r1 \<le> tsizes ts" .
    show ?thesis
    proof (cases r1)
      case Nil
      with a p show ?thesis by simp
    next
      case (Cons t r')
      show ?thesis
      proof (cases t)
        case TComma
        with a p Cons have "parseElems n dep (acc @ [v1]) r' = Some (v, r)" by simp
        from ihE [OF this] b Cons TComma show ?thesis by simp
      next
        case TRBracket
        with a p Cons have "v = JArray (acc @ [v1])" "r = r'" by simp_all
        with b Cons TRBracket show ?thesis by simp
      qed (use a p Cons in auto)
    qed
  qed
  have m: "jsize v + tsizes r \<le> 1 + osize acc + tsizes ts"
    if a: "parseMembers (Suc n) dep acc ts = Some (v, r)" for dep acc ts v r
  proof -
    from a obtain k ts' where ts: "ts = TString k # TColon # ts'"
      by (auto split: list.splits token.splits)
    with a obtain v1 r1 where p: "parseValue n dep ts' = Some (v1, r1)"
      by (auto split: option.splits)
    from ihV [OF p] have b: "jsize v1 + tsizes r1 \<le> tsizes ts'" .
    note ms = osize_mapSet [of k v1 acc]
    show ?thesis
    proof (cases r1)
      case Nil
      with a p ts show ?thesis by simp
    next
      case (Cons t r')
      show ?thesis
      proof (cases t)
        case TComma
        with a p ts Cons have "parseMembers n dep (mapSet k v1 acc) r' = Some (v, r)" by simp
        from ihM [OF this] b ms ts Cons TComma show ?thesis by simp
      next
        case TRBrace
        with a p ts Cons have "v = JObject (mapSet k v1 acc)" "r = r'" by simp_all
        with b ms ts Cons TRBrace show ?thesis by (simp add: osize_def)
      qed (use a p ts Cons in auto)
    qed
  qed
  from v e m show ?case by blast
qed

lemma unmarshal_size: "unmarshal s = Some v \<Longrightarrow> jsize v \<le> length s"
proof -
  assume a: "unmarshal s = Some v"
  then obtain ts where l: "lex s = Some ts" and p: "parseValue (Suc (length ts)) 0 ts = Some (v, [])"
    by (auto simp: unmarshal_def split: option.splits prod.splits list.splits)
  from parse_size [THEN conjunct1, rule_format, OF p] lex_size [OF l] show ?thesis by simp
qed

subsection \<open>MarshalIndent\<close>


definition hexChar :: "nat \<Rightarrow> char" where
  "hexChar n = hexDigits ! n"

text \<open>String escaping of \<^verbatim>\<open>json.Marshal\<close> (with HTML escaping, the default).\<close>

definition escapeChar :: "char \<Rightarrow> string" where
  "escapeChar c =
     (if c = CHR 0x22 \<or> c = CHR 0x5C then [CHR 0x5C, c]
      else if c = CHR 0x08 then [CHR 0x5C, CHR ''b'']
      else if c = CHR 0x0C then [CHR 0x5C, CHR ''f'']
      else if c = CHR 0x0A then [CHR 0x5C, CHR ''n'']
      else if c = CHR 0x0D then [CHR 0x5C, CHR ''r'']
      else if c = CHR 0x09 then [CHR 0x5C, CHR ''t'']
      else if c < CHR 0x20 \<or> c = CHR ''<'' \<or> c = CHR ''>'' \<or> c = CHR ''&'' then
        [CHR 0x5C, CHR ''u'', CHR ''0'', CHR ''0'',
         hexChar (of_char c div 16), hexChar (of_char c mod 16)]
      else [c])"

definition quote :: "string \<Rightarrow> string" where
  "quote s = CHR 0x22 # concat (map escapeChar s) @ [CHR 0x22]"

definition indent :: "nat \<Rightarrow> string" where
  "indent d = concat (replicate d ''  '')"

fun joinWith :: "'a list \<Rightarrow> 'a list list \<Rightarrow> 'a list" where
  "joinWith sep [] = []"
| "joinWith sep [x] = x"
| "joinWith sep (x # y # ys) = x @ sep @ joinWith sep (y # ys)"

lemma jsize_elem: "v \<in> set vs \<Longrightarrow> jsize v < jsize (JArray vs)"
proof -
  assume "v \<in> set vs"
  then have "jsize v \<in> set (map jsize vs)" by simp
  from member_le_sum_list [OF this] show ?thesis by simp
qed

lemma jsize_member: "(k, v) \<in> set m \<Longrightarrow> jsize v < jsize (JObject m)"
proof -
  assume "(k, v) \<in> set m"
  then have "(\<lambda>(k, v). length k + 3 + jsize v) (k, v) \<in> set (map (\<lambda>(k, v). length k + 3 + jsize v) m)"
    by force
  from member_le_sum_list [OF this] show ?thesis by simp
qed

function render :: "nat \<Rightarrow> json \<Rightarrow> string" where
  "render d JNull = ''null''"
| "render d (JBool b) = (if b then ''true'' else ''false'')"
| "render d (JNumber x) = x"
| "render d (JString s) = quote s"
| "render d (JArray vs) =
     (if vs = [] then ''[]''
      else ''['' @ joinWith '','' (map (\<lambda>v. CHR 0x0A # indent (Suc d) @ render (Suc d) v) vs)
           @ CHR 0x0A # indent d @ '']'')"
| "render d (JObject m) =
     (if m = [] then ''{}''
      else ''{'' @ joinWith '',''
             (map (\<lambda>(k, v). CHR 0x0A # indent (Suc d) @ quote k @ '': '' @ render (Suc d) v)
                (sort_key fst m))
           @ CHR 0x0A # indent d @ ''}'')"
  by pat_completeness auto
termination
proof (relation "measure (\<lambda>(d, v). jsize v)", goal_cases)
  case 1
  show ?case by simp
next
  case (2 d vs x)
  then show ?case using jsize_elem [of x vs] by simp
next
  case (3 d m x xa y)
  then have "(xa, y) \<in> set m" by simp
  from jsize_member [OF this] show ?case by simp
qed

definition marshalIndent :: "json \<Rightarrow> string" where
  "marshalIndent v = render 0 v"

lemmas [ev] = marshalIndent_def quote_def escapeChar_def indent_def hexChar_def hexDigits_def

section \<open>The JSON sanitizer\<close>


fun isSensitiveField_loop :: "string list \<Rightarrow> string \<Rightarrow> bool" where
  "isSensitiveField_loop [] lower = False"
| "isSensitiveField_loop (sensitive # others) lower =
     (if contains lower (toLower sensitive) then True else isSensitiveField_loop others lower)"

definition isSensitiveField :: "SanitizerConfig \<Rightarrow> string \<Rightarrow> bool" where
  "isSensitiveField cfg fieldName = isSensitiveField_loop (SensitiveFields cfg) (toLower fieldName)"

text \<open>
  Go visits the entries of a map in an order it chooses anew for every loop. The order
  is a parameter of the model: given the keys of a map, \<open>ord\<close> returns the sequence of
  positions in which the loop visits the entries. \<open>rangeOrder\<close> yields the entries in
  that sequence; an \<open>ord\<close> that does not return a rearrangement of the positions is
  ignored, so every \<open>ord\<close> stands for an iteration order. \<open>keyOrder\<close> visits the entries
  in the order of their keys.
\<close>

type_synonym mapOrder = "string list \<Rightarrow> nat list"

definition rangeOrder :: "mapOrder \<Rightarrow> (string \<times> 'a) list \<Rightarrow> (string \<times> 'a) list" where
  "rangeOrder ord m =
     (if distinct (map fst m) \<and> mset (ord (map fst m)) = mset [0 ..< length m]
      then map (nth m) (ord (map fst m)) else m)"

definition keyOrder :: mapOrder where
  "keyOrder ks = [0 ..< length ks]"

lemma mset_rangeOrder: "mset (rangeOrder ord m) = mset m"
proof (cases "distinct (map fst m) \<and> mset (ord (map fst m)) = mset [0 ..< length m]")
  case True
  then have "mset (map (nth m) (ord (map fst m))) = mset (map (nth m) [0 ..< length m])"
    by (metis mset_map)
  then show ?thesis using True by (simp add: rangeOrder_def map_nth)
next
  case False
  then show ?thesis by (auto simp: rangeOrder_def)
qed

lemma set_rangeOrder: "set (rangeOrder ord m) \<subseteq> set m"
  using mset_rangeOrder [of ord m] by (metis set_mset_mset subset_refl)

lemma rangeOrder_keyOrder [simp]: "rangeOrder keyOrder m = m"
  by (simp add: rangeOrder_def keyOrder_def map_nth)

function sanitizeValue :: "mapOrder \<Rightarrow> SanitizerConfig \<Rightarrow> json \<Rightarrow> json" where
  "sanitizeValue ord cfg (JObject m) =
     JObject (fold (\<lambda>(key, val) result.
                 mapSet key (if isSensitiveField cfg key then JString (Mask cfg)
                             else sanitizeValue ord cfg val) result)
              (rangeOrder ord m) [])"
| "sanitizeValue ord cfg (JArray vs) = JArray (map (sanitizeValue ord cfg) vs)"
| "sanitizeValue ord cfg (JString s) =
     JString (if looksLikeJSON s then
                (case unmarshal s of
                   None \<Rightarrow> sanitizeText cfg s
                 | Some data \<Rightarrow> marshalIndent (sanitizeValue ord cfg data))
              else sanitizeText cfg s)"
| "sanitizeValue ord cfg JNull = JNull"
| "sanitizeValue ord cfg (JBool b) = JBool b"
| "sanitizeValue ord cfg (JNumber x) = JNumber x"
  by pat_completeness auto
termination
proof (relation "measure (\<lambda>(ord, cfg, v). jsize v)", goal_cases)
  case 1
  show ?case by simp
next
  case (2 ord cfg m x xa y)
  then have "(xa, y) \<in> set m" using set_rangeOrder [of ord m] by auto
  from jsize_member [OF this] show ?case by simp
next
  case (3 ord cfg vs x)
  then show ?case using jsize_elem [of x vs] by simp
next
  case (4 ord cfg s x2)
  then show ?case using unmarshal_size [of s x2] by simp
qed

definition sanitizeJSON :: "mapOrder \<Rightarrow> SanitizerConfig \<Rightarrow> string \<Rightarrow> string" where
  "sanitizeJSON ord cfg body =
     (case unmarshal body of
        None \<Rightarrow> sanitizeText cfg body
      | Some data \<Rightarrow> marshalIndent (sanitizeValue ord cfg data))"

lemma sanitizeValue_string:
  "sanitizeValue ord cfg (JString s) =
     JString (if looksLikeJSON s then sanitizeJSON ord cfg s else sanitizeText cfg s)"
  by (simp add: sanitizeJSON_def)

lemmas [ev] = isSensitiveField_def sanitizeJSON_def looksLikeJSON_def trimSpace_def
  isSpace_def contains_def defaultSensitiveFields_def


section \<open>URL-encoded forms (Go's net/url package)\<close>

text \<open>\<^verbatim>\<open>strings.Split(s, sep)\<close> for a separator of one byte.\<close>

fun splitOn :: "char \<Rightarrow> string \<Rightarrow> string list" where
  "splitOn sep [] = [[]]"
| "splitOn sep (c # cs) =
     (if c = sep then [] # splitOn sep cs
      else (case splitOn sep cs of [] \<Rightarrow> [[c]] | p # ps \<Rightarrow> (c # p) # ps))"

text \<open>\<^verbatim>\<open>strings.Cut(s, sep)\<close> for a separator of one byte: the text before the first
  separator and the text after it (empty when there is no separator).\<close>

definition cut :: "char \<Rightarrow> string \<Rightarrow> string \<times> string" where
  "cut sep s = (takeWhile (\<lambda>c. c \<noteq> sep) s, drop 1 (dropWhile (\<lambda>c. c \<noteq> sep) s))"

text \<open>\<^verbatim>\<open>QueryUnescape\<close>: \<^verbatim>\<open>%XX\<close> is a byte, \<^verbatim>\<open>+\<close> a space; a \<^verbatim>\<open>%\<close> that two
  hexadecimal digits do not follow is an error.\<close>

fun queryUnescape :: "string \<Rightarrow> string option" where
  "queryUnescape [] = Some []"
| "queryUnescape (c # cs) =
     (if c = CHR ''%'' then
        (case cs of
           a # b # r \<Rightarrow>
             (case (hexVal a, hexVal b) of
                (Some x, Some y) \<Rightarrow> map_option (Cons (byte (x * 16 + y))) (queryUnescape r)
              | _ \<Rightarrow> None)
         | _ \<Rightarrow> None)
      else map_option (Cons (if c = CHR ''+'' then CHR '' '' else c)) (queryUnescape cs))"

definition mapGet :: "string \<Rightarrow> (string \<times> 'a list) list \<Rightarrow> 'a list" where
  "mapGet k m = (case map_of m k of None \<Rightarrow> [] | Some v \<Rightarrow> v)"

text \<open>\<^verbatim>\<open>url.ParseQuery\<close>; the sanitizer only uses the result when the error is nil, so an
  error anywhere in the query is \<^const>\<open>None\<close>.\<close>

fun parseQueryParts :: "string list \<Rightarrow> (string \<times> string list) list \<Rightarrow> (string \<times> string list) list option" where
  "parseQueryParts [] m = Some m"
| "parseQueryParts (part # parts) m =
     (if CHR '';'' \<in> set part then None
      else if part = [] then parseQueryParts parts m
      else case (queryUnescape (fst (cut (CHR ''='') part)), queryUnescape (snd (cut (CHR ''='') part))) of
             (Some key, Some val) \<Rightarrow> parseQueryParts parts (mapSet key (mapGet key m @ [val]) m)
           | _ \<Rightarrow> None)"

definition ParseQuery :: "string \<Rightarrow> (string \<times> string list) list option" where
  "ParseQuery query = parseQueryParts (splitOn (CHR ''&'') query) []"

definition upperhex :: string where "upperhex = ''0123456789ABCDEF''"

definition shouldEscape :: "char \<Rightarrow> bool" where
  "shouldEscape c = (\<not> (isLetter c \<or> isDigit c \<or> c = CHR ''-'' \<or> c = CHR ''_'' \<or> c = CHR ''.'' \<or> c = CHR ''~''))"

definition queryEscapeChar :: "char \<Rightarrow> string" where
  "queryEscapeChar c =
     (if c = CHR '' '' then ''+''
      else if shouldEscape c then [CHR ''%'', upperhex ! (of_char c div 16), upperhex ! (of_char c mod 16)]
      else [c])"

definition QueryEscape :: "string \<Rightarrow> string" where
  "QueryEscape s = concat (map queryEscapeChar s)"

text \<open>\<^verbatim>\<open>Values.Encode\<close>: keys in sorted order, one \<^verbatim>\<open>key=value\<close> for each value.\<close>

definition Encode :: "(string \<times> string list) list \<Rightarrow> string" where
  "Encode v =
     joinWith ''&'' (concat (map (\<lambda>(k, vs). map (\<lambda>x. QueryEscape k @ ''='' @ QueryEscape x) vs)
                              (sort_key fst v)))"

lemmas [ev] = cut_def mapGet_def ParseQuery_def upperhex_def shouldEscape_def queryEscapeChar_def
  QueryEscape_def Encode_def hexVal_def byte_def index.simps

definition sanitizeFormURLEncoded :: "mapOrder \<Rightarrow> SanitizerConfig \<Rightarrow> string \<Rightarrow> string" where
  "sanitizeFormURLEncoded ord cfg body =
     (case ParseQuery body of
        None \<Rightarrow> sanitizeText cfg body
      | Some vals \<Rightarrow>
          Encode (fold (\<lambda>(key, vs) sanitized.
                     mapSet key (if isSensitiveField cfg key then [Mask cfg]
                                 else map (sanitizeText cfg) vs) sanitized)
                   (rangeOrder ord vals) []))"

section \<open>The XML and multipart sanitizers\<close>

text \<open>The two patterns that \<^verbatim>\<open>sanitizeXML\<close> compiles for a field name;
  \<^verbatim>\<open>regexp.QuoteMeta(field)\<close> is the name as a literal:
  \<^verbatim>\<open>(?i)(<FIELD[^>]*>)([^<]+)(</FIELD>)\<close> and \<^verbatim>\<open>(?i)(FIELD\s*=\s*["'])([^"']+)(["'])\<close>.\<close>

definition xmlTagPattern :: "string \<Rightarrow> pattern" where
  "xmlTagPattern field =
     \<lparr>foldCase = True, expr = seqs [
        Grp 1 (seqs [Lit (''<'' @ field), Cls True (chars ''>'') 0 None, Lit ''>'']),
        Grp 2 (Cls True (chars ''<'') 1 None),
        Grp 3 (Lit (''</'' @ field @ ''>''))]\<rparr>"

definition xmlAttrPattern :: "string \<Rightarrow> pattern" where
  "xmlAttrPattern field =
     \<lparr>foldCase = True, expr = seqs [
        Grp 1 (seqs [Lit field, Cls False spaceClass 0 None, Lit ''='', Cls False spaceClass 0 None,
                     Cls False [(CHR 0x22, CHR 0x22), (CHR 0x27, CHR 0x27)] 1 (Some 1)]),
        Grp 2 (Cls True [(CHR 0x22, CHR 0x22), (CHR 0x27, CHR 0x27)] 1 None),
        Grp 3 (Cls False [(CHR 0x22, CHR 0x22), (CHR 0x27, CHR 0x27)] 1 (Some 1))]\<rparr>"

definition sanitizeXML :: "SanitizerConfig \<Rightarrow> string \<Rightarrow> string" where
  "sanitizeXML cfg body =
     sanitizeText cfg
       (fold (\<lambda>field result.
                ReplaceAllString (xmlAttrPattern field)
                  (ReplaceAllString (xmlTagPattern field) result (''${1}'' @ Mask cfg @ ''${3}''))
                  (''${1}'' @ Mask cfg @ ''${3}''))
          (SensitiveFields cfg) body)"

text \<open>\<^verbatim>\<open>name="([^"]+)"\<close>, and \<^verbatim>\<open>FindStringSubmatch\<close>: the groups of the leftmost match.\<close>

definition namePattern :: pattern where
  "namePattern =
     \<lparr>foldCase = False, expr = seqs [
        Lit (''name='' @ [CHR 0x22]), Grp 1 (Cls True [(CHR 0x22, CHR 0x22)] 1 None), Lit [CHR 0x22]]\<rparr>"

definition FindStringSubmatch :: "pattern \<Rightarrow> string \<Rightarrow> (nat \<times> string) list option" where
  "FindStringSubmatch p s =
     (case findMatch p None s of
        None \<Rightarrow> None
      | Some (i, m) \<Rightarrow> Some ((0, take (length (drop i s) - length (mrest m)) (drop i s)) # mcaps m))"

text \<open>The loop of \<^verbatim>\<open>sanitizeMultipartForm\<close> over the lines; the state is
  \<^verbatim>\<open>inSensitiveField\<close> (the loop never reads \<^verbatim>\<open>currentFieldName\<close>).\<close>

fun multipartLines :: "SanitizerConfig \<Rightarrow> bool \<Rightarrow> string list \<Rightarrow> string list" where
  "multipartLines cfg inSensitiveField [] = []"
| "multipartLines cfg inSensitiveField (line # lines) =
     (if contains line ''Content-Disposition'' then
        line # multipartLines cfg
                 (case FindStringSubmatch namePattern line of
                    None \<Rightarrow> inSensitiveField
                  | Some nameMatch \<Rightarrow>
                      isSensitiveField cfg (case map_of nameMatch 1 of None \<Rightarrow> [] | Some n \<Rightarrow> n))
                 lines
      else if hasPrefix line ''--'' then line # multipartLines cfg False lines
      else if inSensitiveField \<and> line \<noteq> [] \<and> \<not> hasPrefix line ''Content-''
        then Mask cfg # multipartLines cfg inSensitiveField lines
      else line # multipartLines cfg inSensitiveField lines)"

definition sanitizeMultipartForm :: "SanitizerConfig \<Rightarrow> string \<Rightarrow> string" where
  "sanitizeMultipartForm cfg body =
     joinWith [CHR 0x0A] (multipartLines cfg False (splitOn (CHR 0x0A) body))"

section \<open>Size policy\<close>

text \<open>\<^verbatim>\<open>fmt.Sprintf("%d", n)\<close>; \<^verbatim>\<open>formatInt\<close> then replaces "," by "" and "." by ",".\<close>

definition digitChar :: "nat \<Rightarrow> char" where
  "digitChar n = ''0123456789'' ! n"

function showNat :: "nat \<Rightarrow> string" where
  "showNat n = (if n < 10 then [digitChar n] else showNat (n div 10) @ [digitChar (n mod 10)])"
  by pat_completeness auto
termination
  by (relation "measure id") auto

definition showInt :: "int \<Rightarrow> string" where
  "showInt i = (if i < 0 then CHR ''-'' # showNat (nat (- i)) else showNat (nat i))"

definition replaceAllChar :: "char \<Rightarrow> string \<Rightarrow> string \<Rightarrow> string" where
  "replaceAllChar old new s = concat (map (\<lambda>c. if c = old then new else [c]) s)"

definition formatInt :: "int \<Rightarrow> string" where
  "formatInt n = replaceAllChar (CHR ''.'') '','' (replaceAllChar (CHR '','') [] (showInt n))"

definition formatSize :: "int \<Rightarrow> string" where
  "formatSize sz =
     (if sz < 1024 then formatInt sz @ '' bytes''
      else if sz < 1024 * 1024 then formatInt (sz div 1024) @ '' KB''
      else formatInt (sz div (1024 * 1024)) @ '' MB'')"

definition summarizeBody :: "SanitizerConfig \<Rightarrow> string \<Rightarrow> string \<Rightarrow> int \<Rightarrow> string" where
  "summarizeBody cfg body contentType sz =
     ''[Large body - '' @ formatSize sz @ '']''
     @ (if isJSON contentType then
          (case unmarshal body of
             Some (JObject m) \<Rightarrow> '' Object with '' @ formatInt (int (length m)) @ '' keys''
           | Some (JArray vs) \<Rightarrow> '' Array with '' @ formatInt (int (length vs)) @ '' items''
           | _ \<Rightarrow> [])
        else [])
     @ (if isXML contentType then '' XML document'' else [])"

section \<open>SanitizeBody\<close>

text \<open>A run-time panic of Go is a value; the only one the sanitizer can raise is the slice
  expression \<^verbatim>\<open>body[:maxSize]\<close> with a negative bound.\<close>

datatype goPanic = SliceBoundsOutOfRange

text \<open>The format-specific part of \<^verbatim>\<open>SanitizeBody\<close>, after the rule loop.\<close>

definition sanitizeByFormat :: "mapOrder \<Rightarrow> SanitizerConfig \<Rightarrow> string \<Rightarrow> string \<Rightarrow> string" where
  "sanitizeByFormat ord cfg body contentType =
     (if isJSON contentType \<or> looksLikeJSON body then sanitizeJSON ord cfg body
      else if isXML contentType \<or> looksLikeXML body then sanitizeXML cfg body
      else if isFormURLEncoded contentType then sanitizeFormURLEncoded ord cfg body
      else if isMultipartForm contentType then sanitizeMultipartForm cfg body
      else sanitizeText cfg body)"

text \<open>
  \<^verbatim>\<open>SanitizeBody\<close>, its rule loop and \<^verbatim>\<open>truncateBody\<close> call each other:
  \<^verbatim>\<open>truncateBody\<close> calls \<^verbatim>\<open>SanitizeBody\<close> again with the same arguments when the body is not
  longer than \<^verbatim>\<open>MaxBodySize\<close>. The first argument bounds the number of nested calls of
  \<^verbatim>\<open>SanitizeBody\<close>; \<^const>\<open>None\<close> says that the bound was reached, so a call that returns
  \<^const>\<open>None\<close> for every bound does not return in Go (the stack overflows).
\<close>

fun SanitizeBody :: "nat \<Rightarrow> mapOrder \<Rightarrow> SanitizerConfig \<Rightarrow> string \<Rightarrow> string \<Rightarrow> (goPanic + string) option"
  and applyRules :: "nat \<Rightarrow> mapOrder \<Rightarrow> SanitizerConfig \<Rightarrow> string \<Rightarrow> string \<Rightarrow> BodyProcessingRule list \<Rightarrow> (goPanic + string) option"
  and truncateBody :: "nat \<Rightarrow> mapOrder \<Rightarrow> SanitizerConfig \<Rightarrow> string \<Rightarrow> string \<Rightarrow> (goPanic + string) option"
  where
  "SanitizeBody 0 ord cfg body contentType = None"
| "SanitizeBody (Suc n) ord cfg body contentType =
     (if length body = 0 then Some (Inr [])
      else applyRules n ord cfg body contentType (BodyRules cfg))"
| "applyRules n ord cfg body contentType [] = Some (Inr (sanitizeByFormat ord cfg body contentType))"
| "applyRules n ord cfg body contentType (rule # rules) =
     (if Condition rule contentType body (int (length body)) then
        (if Action rule = BodyActionSkip then
           Some (Inr (if Message rule \<noteq> [] then Message rule else ''[Body not logged]''))
         else if Action rule = BodyActionSummarize then
           Some (Inr (summarizeBody cfg body contentType (int (length body))))
         else if Action rule = BodyActionTruncate then truncateBody n ord cfg body contentType
         else applyRules n ord cfg body contentType rules)
      else applyRules n ord cfg body contentType rules)"
| "truncateBody n ord cfg body contentType =
     (if int (length body) \<le> MaxBodySize cfg then SanitizeBody n ord cfg body contentType
      else if MaxBodySize cfg < 0 then Some (Inl SliceBoundsOutOfRange)
      else Some (Inr (take (nat (MaxBodySize cfg)) body
                      @ [CHR 0x0A] @ ''... [truncated, total: '' @ formatSize (int (length body)) @ '']'')))"

lemmas [ev] = xmlTagPattern_def xmlAttrPattern_def sanitizeXML_def namePattern_def FindStringSubmatch_def
  sanitizeMultipartForm_def digitChar_def showInt_def replaceAllChar_def formatInt_def formatSize_def
  summarizeBody_def sanitizeByFormat_def sanitizeFormURLEncoded_def
  isJSON_def isXML_def isFormURLEncoded_def isMultipartForm_def isBinaryContent_def binaryTypes_def
  looksLikeXML_def looksLikeBase64_def base64Chars_def hasSuffix_def defaultBodyRules_def
  BodyActionSkip_def BodyActionSummarize_def BodyActionTruncate_def BodyActionSanitize_def

section \<open>Header sanitizer\<close>





section \<open>Properties of the header sanitizer\<close>




section \<open>The size policy: rule order, truncation and termination\<close>

text \<open>Configurations used below: the default patterns and fields with other rules.\<close>

definition loopConfig :: SanitizerConfig where
  "loopConfig = DefaultSanitizerConfig
     \<lparr>MaxBodySize := 100,
      BodyRules := [\<lparr>Condition = (\<lambda>contentType body size. size > 10),
                     Action = BodyActionTruncate, Message = []\<rparr>]\<rparr>"

definition negativeConfig :: SanitizerConfig where
  "negativeConfig = DefaultSanitizerConfig
     \<lparr>MaxBodySize := - 1,
      BodyRules := [\<lparr>Condition = (\<lambda>contentType body size. size > 10),
                     Action = BodyActionTruncate, Message = []\<rparr>]\<rparr>"

definition truncateConfig :: SanitizerConfig where
  "truncateConfig = DefaultSanitizerConfig
     \<lparr>MaxBodySize := 50,
      BodyRules := [\<lparr>Condition = (\<lambda>contentType body size. size > 50),
                     Action = BodyActionTruncate, Message = []\<rparr>]\<rparr>"

definition longBody :: string where
  "longBody = ''Authorization: Bearer sk-1234567890abcdef and then the rest of a long text body''"

definition firstMatchConfig :: SanitizerConfig where
  "firstMatchConfig = DefaultSanitizerConfig
     \<lparr>BodyRules := [\<lparr>Condition = (\<lambda>contentType body size. True),
                     Action = BodyActionSanitize, Message = []\<rparr>,
                    \<lparr>Condition = (\<lambda>contentType body size. True),
                     Action = BodyActionSkip, Message = ''[not logged]''\<rparr>]\<rparr>"

text \<open>With a truncate rule that fires on a body of at most \<^verbatim>\<open>MaxBodySize\<close> bytes,
  \<^verbatim>\<open>truncateBody\<close> calls \<^verbatim>\<open>SanitizeBody\<close> with the same arguments, where the same rule
  fires again: no bound on the nesting is enough.\<close>

lemma loop_SanitizeBody: "SanitizeBody n ord loopConfig ''hello world!'' contentType = None"
proof (induction n)
  case 0
  show ?case by simp
next
  case (Suc n)
  have "applyRules n ord loopConfig ''hello world!'' contentType (BodyRules loopConfig)
        = SanitizeBody n ord loopConfig ''hello world!'' contentType"
    by (simp add: loopConfig_def BodyActionTruncate_def BodyActionSkip_def BodyActionSummarize_def)
  with Suc show ?case by simp
qed

text \<open>Under the default configuration the truncate rule fires only above
  \<^verbatim>\<open>MaxBodySize\<close>, and one call returns for every body and content type.\<close>

lemma default_returns:
  "\<exists>r. SanitizeBody (Suc 0) ord DefaultSanitizerConfig body contentType = Some (Inr r)"
  by (simp add: DefaultSanitizerConfig_def defaultBodyRules_def BodyActionTruncate_def
        BodyActionSkip_def BodyActionSummarize_def)

text \<open>
  Claim C10 (termination of \<^verbatim>\<open>SanitizeBody\<close> for every configuration) fails on the code:
  with \<^verbatim>\<open>MaxBodySize = 100\<close> and the single rule "size > 10: truncate", the 12-byte body
  \<^verbatim>\<open>hello world!\<close> makes \<^verbatim>\<open>SanitizeBody\<close> and \<^verbatim>\<open>truncateBody\<close> call each other without
  end: for no bound on the nesting does the call return.
\<close>

theorem C10_truncate_recursion_diverges:
  "\<not> (\<exists>n r. SanitizeBody n ord loopConfig ''hello world!'' contentType = Some r)"
  by (simp add: loop_SanitizeBody)

text \<open>
  Claim C6 (\<^verbatim>\<open>SanitizeBody\<close> never fails towards its caller) fails on the code at the same
  defect, and at a second one: the call above never returns (a stack overflow in Go), and
  with a negative \<^verbatim>\<open>MaxBodySize\<close> the slice \<^verbatim>\<open>body[:maxSize]\<close> of \<^verbatim>\<open>truncateBody\<close> panics.
\<close>

theorem C6_SanitizeBody_crashes:
  "(\<forall>n. SanitizeBody n ord loopConfig ''hello world!'' contentType = None)
   \<and> SanitizeBody (Suc 0) ord negativeConfig ''hello world!'' contentType
       = Some (Inl SliceBoundsOutOfRange)"
  by (simp add: loop_SanitizeBody negativeConfig_def BodyActionTruncate_def BodyActionSkip_def
        BodyActionSummarize_def)

text \<open>The part of claim C6 about parse failures holds: a body that \<^verbatim>\<open>json.Unmarshal\<close> or
  \<^verbatim>\<open>url.ParseQuery\<close> rejects is sanitized as plain text.\<close>

lemma sanitizeJSON_fallback: "unmarshal body = None \<Longrightarrow> sanitizeJSON ord cfg body = sanitizeText cfg body"
  by (simp add: sanitizeJSON_def)

lemma sanitizeFormURLEncoded_fallback:
  "ParseQuery body = None \<Longrightarrow> sanitizeFormURLEncoded ord cfg body = sanitizeText cfg body"
  by (simp add: sanitizeFormURLEncoded_def)

text \<open>
  Claim C2 (a truncated body is the sanitized first \<^verbatim>\<open>MaxBodySize\<close> bytes and the notice)
  fails on the code: \<^verbatim>\<open>truncateBody\<close> returns the first bytes as they are. With
  \<^verbatim>\<open>MaxBodySize = 50\<close> and the rule "size > 50: truncate", the bearer token of a 79-byte
  text is in the output, although the pattern detector masks it in the same 50 bytes.
\<close>

theorem C2_truncated_bytes_not_sanitized:
  "SanitizeBody (Suc 0) ord truncateConfig longBody ''text/plain''
     = Some (Inr (''Authorization: Bearer sk-1234567890abcdef and then'' @ [CHR 0x0A]
                  @ ''... [truncated, total: 79 bytes]''))
   \<and> sanitizeText truncateConfig (take 50 longBody)
     = ''Authorization: Bearer ***REDACTED*** and then''"
proof -
  have a: "SanitizeBody (Suc 0) ord truncateConfig longBody ''text/plain''
     = Some (Inr (''Authorization: Bearer sk-1234567890abcdef and then'' @ [CHR 0x0A]
                  @ ''... [truncated, total: 79 bytes]''))"
    by (simp add: truncateConfig_def longBody_def BodyActionTruncate_def BodyActionSkip_def
          BodyActionSummarize_def formatSize_def formatInt_def showInt_def replaceAllChar_def
          digitChar_def)
  have b: "sanitizeText truncateConfig (take 50 longBody)
     = ''Authorization: Bearer ***REDACTED*** and then''"
    by (simp add: truncateConfig_def longBody_def ev)
  from a b show ?thesis by simp
qed

text \<open>
  Claim C5 (the first rule whose condition holds decides, no later rule is applied)
  fails on the code: a rule with the action \<^verbatim>\<open>sanitize\<close> does not end the loop over the
  rules, so the skip rule after it is applied to a body that the first rule matched.
\<close>

theorem C5_later_rule_applied:
  "Condition (hd (BodyRules firstMatchConfig)) ''text/plain'' ''hello'' 5
   \<and> Action (hd (BodyRules firstMatchConfig)) = BodyActionSanitize
   \<and> SanitizeBody (Suc 0) ord firstMatchConfig ''hello'' ''text/plain'' = Some (Inr ''[not logged]'')"
  by (simp add: firstMatchConfig_def BodyActionTruncate_def BodyActionSkip_def
        BodyActionSummarize_def BodyActionSanitize_def)


section \<open>Content classification: claim C4\<close>





section \<open>Determinism: claim C9\<close>

text \<open>Assignments to different keys of a map commute, so a loop that assigns every entry
  of a map once builds the same map in every iteration order.\<close>

lemma mapSet_commute:
  "k \<noteq> k' \<Longrightarrow> mapSet k v (mapSet k' v' m) = mapSet k' v' (mapSet k v m)"
  by (induction m) auto

lemma fold_mapSet_order:
  assumes d: "distinct (map fst xs)" and m: "mset ys = mset xs"
  shows "fold (\<lambda>(k, v). mapSet k (f k v)) ys = fold (\<lambda>(k, v). mapSet k (f k v)) xs"
proof (rule fold_multiset_equiv [OF _ m])
  fix x y assume x: "x \<in> set ys" and y: "y \<in> set ys"
  from m have s: "set ys = set xs" by (rule mset_eq_setD)
  obtain k v where xk: "x = (k, v)" by (cases x)
  obtain k' v' where yk: "y = (k', v')" by (cases y)
  show "(\<lambda>(k, v). mapSet k (f k v)) x \<circ> (\<lambda>(k, v). mapSet k (f k v)) y
        = (\<lambda>(k, v). mapSet k (f k v)) y \<circ> (\<lambda>(k, v). mapSet k (f k v)) x"
  proof (cases "k = k'")
    case True
    with d x y s xk yk have "x = y" by (metis eq_key_imp_eq_value)
    then show ?thesis by simp
  next
    case False
    then show ?thesis using xk yk by (auto simp: fun_eq_iff mapSet_commute)
  qed
qed

lemma fold_rangeOrder:
  "fold (\<lambda>(k, v). mapSet k (f k v)) (rangeOrder ord m) = fold (\<lambda>(k, v). mapSet k (f k v)) m"
proof (cases "distinct (map fst m)")
  case True
  from fold_mapSet_order [OF True mset_rangeOrder] show ?thesis .
next
  case False
  then show ?thesis by (simp add: rangeOrder_def)
qed

lemma sanitizeValue_order: "sanitizeValue ord cfg v = sanitizeValue keyOrder cfg v"
proof (induction ord cfg v rule: sanitizeValue.induct)
  case (1 ord cfg m)
  let ?g = "\<lambda>od. (\<lambda>(key, val) result.
                 mapSet key (if isSensitiveField cfg key then JString (Mask cfg)
                             else sanitizeValue od cfg val) result)"
  have "fold (?g ord) (rangeOrder ord m) [] = fold (?g keyOrder) (rangeOrder ord m) []"
    by (rule fold_cong) (use 1 in auto)
  also have "\<dots> = fold (?g keyOrder) m []"
    using fold_rangeOrder [of "\<lambda>key val. if isSensitiveField cfg key then JString (Mask cfg)
                             else sanitizeValue keyOrder cfg val" ord m]
    by (simp add: fun_eq_iff)
  finally show ?case by simp
next
  case (2 ord cfg vs)
  then show ?case by simp
next
  case (3 ord cfg s)
  then show ?case by (simp split: option.splits)
qed simp_all


lemma sanitizeJSON_order: "sanitizeJSON ord cfg body = sanitizeJSON keyOrder cfg body"
  by (simp add: sanitizeJSON_def sanitizeValue_order [of ord] split: option.splits)

lemma sanitizeFormURLEncoded_order:
  "sanitizeFormURLEncoded ord cfg body = sanitizeFormURLEncoded keyOrder cfg body"
proof (cases "ParseQuery body")
  case None
  then show ?thesis by (simp add: sanitizeFormURLEncoded_def)
next
  case (Some vals)
  from fold_rangeOrder [of "\<lambda>key vs. if isSensitiveField cfg key then [Mask cfg]
                                 else map (sanitizeText cfg) vs" ord vals]
  show ?thesis using Some by (simp add: sanitizeFormURLEncoded_def)
qed

lemma sanitizeByFormat_order:
  "sanitizeByFormat ord cfg body contentType = sanitizeByFormat keyOrder cfg body contentType"
  by (simp add: sanitizeByFormat_def sanitizeJSON_order [of ord] sanitizeFormURLEncoded_order [of ord])

lemma applyRules_order:
  assumes "SanitizeBody n ord cfg body contentType = SanitizeBody n keyOrder cfg body contentType"
  shows "applyRules n ord cfg body contentType rules = applyRules n keyOrder cfg body contentType rules"
  using assms by (induction rules) (simp_all add: sanitizeByFormat_order [of ord])

lemma SanitizeBody_order:
  "SanitizeBody n ord cfg body contentType = SanitizeBody n keyOrder cfg body contentType"
proof (induction n)
  case 0
  show ?case by simp
next
  case (Suc n)
  from applyRules_order [OF Suc] show ?case by simp
qed

text \<open>
  Claim C9: for every configuration, body and content type, two calls of
  \<^verbatim>\<open>SanitizeBody\<close> return the same result whatever orders the two runs choose for their
  loops over maps (in \<^verbatim>\<open>sanitizeValue\<close> and in \<^verbatim>\<open>sanitizeFormURLEncoded\<close>): the result
  of such a loop is a map, and \<^verbatim>\<open>MarshalIndent\<close> and \<^verbatim>\<open>Encode\<close> write maps in key order.
\<close>

theorem C9_SanitizeBody_deterministic:
  "SanitizeBody n ord cfg body contentType = SanitizeBody n ord' cfg body contentType"
  using SanitizeBody_order [of n ord] SanitizeBody_order [of n ord'] by simp

section \<open>The header sanitizer: claim C7\<close>




end
